theory Spec2Isabelle
  imports Complex_Main "HOL-Library.AList" "HOL-Library.List_Lexorder"
    "HOL-Library.Code_Target_Nat"
begin

section \<open>Strings\<close>

text \<open>
  A Python \<open>str\<close> is a sequence of Unicode code points. Two of the characters the
  program names lie outside ASCII (the middle dot U+00B7 and the box-drawing vertical bar
  U+2502), so a string is modelled as the list of its code points. The order that
  \<open>List_Lexorder\<close> puts on such lists is the lexicographic order by code point, which is
  the order Python compares strings by.
\<close>

type_synonym ustring = "nat list"

definition ascii :: "string \<Rightarrow> ustring" where
  "ascii s = map of_char s"

definition MIDDLE_DOT :: nat where
  "MIDDLE_DOT = 183"

definition BOX_VERTICAL :: nat where
  "BOX_VERTICAL = 9474"

text \<open>The argument of \<open>strip\<close> in \<open>flatten_line\<close>: box vertical bar, pipe, space, newline.\<close>

definition STRIP_CHARS :: ustring where
  "STRIP_CHARS = [BOX_VERTICAL, 124, 32, 10]"

text \<open>\<open>s.split(sep)\<close> for a separator of one character: always at least one segment.\<close>

fun split_on :: "nat \<Rightarrow> ustring \<Rightarrow> ustring list" where
  "split_on sep [] = [[]]"
| "split_on sep (c # cs) =
     (if c = sep then [] # split_on sep cs
      else (case split_on sep cs of
              [] \<Rightarrow> [[c]]
            | seg # segs \<Rightarrow> (c # seg) # segs))"

text \<open>\<open>s.strip(chars)\<close>: drop the characters of \<open>chars\<close> from both ends.\<close>

definition strip :: "ustring \<Rightarrow> ustring \<Rightarrow> ustring" where
  "strip chars s =
     rev (dropWhile (\<lambda>c. c \<in> set chars) (rev (dropWhile (\<lambda>c. c \<in> set chars) s)))"

text \<open>\<open>sep.join(lst)\<close>.\<close>

fun join :: "ustring \<Rightarrow> ustring list \<Rightarrow> ustring" where
  "join sep [] = []"
| "join sep [x] = x"
| "join sep (x # y # ys) = x @ sep @ join sep (y # ys)"

text \<open>\<open>needle in line\<close> on strings: \<open>needle\<close> occurs as a contiguous substring.\<close>

fun contains :: "ustring \<Rightarrow> ustring \<Rightarrow> bool" where
  "contains [] needle = (needle = [])"
| "contains (c # cs) needle =
     (take (length needle) (c # cs) = needle \<or> contains cs needle)"

section \<open>The line flattener\<close>

text \<open>
  \<^verbatim>\<open>return [col for column in line.split(MIDDLE DOT) if (col := column.strip(...))]\<close>
\<close>

definition flatten_line :: "ustring \<Rightarrow> ustring list" where
  "flatten_line line =
     concat (map (\<lambda>column. let col = strip STRIP_CHARS column
                            in if col \<noteq> [] then [col] else [])
                 (split_on MIDDLE_DOT line))"

section \<open>Dictionaries and exceptions\<close>

text \<open>
  A \<open>dict\<close> is an association list with distinct keys in insertion order. Storing under
  a key that is present replaces the value in place, storing under a new key appends:
  this is \<open>AList.update\<close>. A missing key raises \<open>KeyError\<close>.
\<close>

datatype py_error = KeyError | ValueError | ZeroDivisionError | OverflowError

definition setitem :: "('k \<times> 'v) list \<Rightarrow> 'k \<Rightarrow> 'v \<Rightarrow> ('k \<times> 'v) list" where
  "setitem d k v = AList.update k v d"

definition getitem :: "('k \<times> 'v) list \<Rightarrow> 'k \<Rightarrow> py_error + 'v" where
  "getitem d k = (case map_of d k of None \<Rightarrow> Inl KeyError | Some v \<Rightarrow> Inr v)"

definition has_key :: "('k \<times> 'v) list \<Rightarrow> 'k \<Rightarrow> bool" where
  "has_key d k = (k \<in> set (map fst d))"

text \<open>\<open>dict(pairs)\<close>: the pairs are stored one after the other.\<close>

definition dict :: "('k \<times> 'v) list \<Rightarrow> ('k \<times> 'v) list" where
  "dict pairs = foldl (\<lambda>d (k, v). setitem d k v) [] pairs"

section \<open>The report parser\<close>

datatype State = HEADER | METHODS | DEPLOYMENTS

definition METHOD_COLUMNS :: "string list" where
  "METHOD_COLUMNS =
     [''contract'', ''method'', ''min'', ''max'', ''avg'', ''calls'', ''avgeur'']"

definition DEPLOYMENT_COLUMNS :: "string list" where
  "DEPLOYMENT_COLUMNS =
     [''contract'', ''min'', ''max'', ''avg'', ''pctg'', ''avgeur'']"

type_synonym labeled_data = "(string \<times> ustring) list"

type_synonym subdict = "(ustring \<times> labeled_data) list"

text \<open>
  The value \<open>new_report_dict_from_file\<close> returns, and the local variables of its loop:
  the two mappings, \<open>state\<close> and \<open>next_state\<close>.
\<close>

record report =
  methods :: subdict
  deployments :: subdict

record locals = report +
  state :: State
  next_state :: State

text \<open>
  The body of \<open>for line in fp\<close>. The \<open>else: raise RuntimeError\<close> branch of the source has
  no counterpart: \<open>State\<close> has exactly the three members the other branches test for.
\<close>

definition loop_body :: "locals \<Rightarrow> ustring \<Rightarrow> py_error + locals" where
  "loop_body s line =
     (case
        (case state s of
           HEADER \<Rightarrow>
             if contains line (ascii ''Contract'')
             then Inr (s\<lparr>next_state := METHODS\<rparr>)
             else Inr s
         | METHODS \<Rightarrow>
             if contains line (ascii ''Deployments'')
             then Inr (s\<lparr>next_state := DEPLOYMENTS\<rparr>)
             else
               (let data = flatten_line line in
                if length data = length METHOD_COLUMNS then
                  (let labeled_data = dict (zip METHOD_COLUMNS data) in
                   case getitem labeled_data ''contract'' of
                     Inl e \<Rightarrow> Inl e
                   | Inr contract \<Rightarrow>
                       (case getitem labeled_data ''method'' of
                          Inl e \<Rightarrow> Inl e
                        | Inr method \<Rightarrow>
                            Inr (s\<lparr>methods :=
                                      setitem (methods s) (contract @ ascii ''.'' @ method)
                                        labeled_data\<rparr>)))
                else Inr s)
         | DEPLOYMENTS \<Rightarrow>
             (let data = flatten_line line in
              if length data = length DEPLOYMENT_COLUMNS then
                (let labeled_data = dict (zip DEPLOYMENT_COLUMNS data) in
                 case getitem labeled_data ''contract'' of
                   Inl e \<Rightarrow> Inl e
                 | Inr contract \<Rightarrow>
                     Inr (s\<lparr>deployments := setitem (deployments s) contract labeled_data\<rparr>))
              else Inr s))
      of
        Inl e \<Rightarrow> Inl e
      | Inr s' \<Rightarrow> Inr (s'\<lparr>state := next_state s'\<rparr>))"

fun for_line_in :: "ustring list \<Rightarrow> locals \<Rightarrow> py_error + locals" where
  "for_line_in [] s = Inr s"
| "for_line_in (line # fp) s =
     (case loop_body s line of
        Inl e \<Rightarrow> Inl e
      | Inr s' \<Rightarrow> for_line_in fp s')"

definition initial_locals :: locals where
  "initial_locals =
     \<lparr>methods = [], deployments = [], state = HEADER, next_state = HEADER\<rparr>"

text \<open>
  The file is given as the list of the lines its iterator yields (each with its
  newline, if it has one); opening the file is outside the model.
\<close>

definition new_report_dict_from_file :: "ustring list \<Rightarrow> py_error + report" where
  "new_report_dict_from_file fp =
     (case for_line_in fp initial_locals of
        Inl e \<Rightarrow> Inl e
      | Inr s \<Rightarrow> Inr \<lparr>methods = methods s, deployments = deployments s\<rparr>)"

section \<open>Built-in conversions used by the formatter\<close>

subsection \<open>\<open>int(s)\<close>\<close>

text \<open>
  \<open>int\<close> on a string, base ten: white space around the number is ignored, then an
  optional sign, then decimal digits, where a single underscore may stand between two
  digits. Anything else raises \<open>ValueError\<close> (here \<open>None\<close>). The model reads the ASCII
  digits; the decimal digits of other scripts, which the built-in also accepts, are not
  read, and no limit is put on the number of digits.
\<close>

definition is_space :: "nat \<Rightarrow> bool" where
  "is_space c \<longleftrightarrow>
     (9 \<le> c \<and> c \<le> 13) \<or> (28 \<le> c \<and> c \<le> 32) \<or> c = 133 \<or> c = 160 \<or> c = 5760 \<or>
     (8192 \<le> c \<and> c \<le> 8202) \<or> c = 8232 \<or> c = 8233 \<or> c = 8239 \<or> c = 8287 \<or> c = 12288"

definition is_digit :: "nat \<Rightarrow> bool" where
  "is_digit c \<longleftrightarrow> 48 \<le> c \<and> c \<le> 57"

fun digits_acc :: "nat \<Rightarrow> ustring \<Rightarrow> nat option" where
  "digits_acc acc [] = Some acc"
| "digits_acc acc [c] = (if is_digit c then Some (10 * acc + (c - 48)) else None)"
| "digits_acc acc (c # d # cs) =
     (if is_digit c then digits_acc (10 * acc + (c - 48)) (d # cs)
      else if c = 95 \<and> is_digit d then digits_acc acc (d # cs)
      else None)"

definition py_digits :: "ustring \<Rightarrow> nat option" where
  "py_digits s =
     (case s of
        [] \<Rightarrow> None
      | c # cs \<Rightarrow> if is_digit c then digits_acc 0 s else None)"

definition py_int :: "ustring \<Rightarrow> int option" where
  "py_int s =
     (let t = rev (dropWhile is_space (rev (dropWhile is_space s))) in
      case t of
        [] \<Rightarrow> None
      | c # cs \<Rightarrow>
          if c = 45 then map_option (\<lambda>n. - int n) (py_digits cs)
          else if c = 43 then map_option int (py_digits cs)
          else map_option int (py_digits t))"

subsection \<open>Floating point\<close>

text \<open>
  A \<open>float\<close> is an IEEE 754 binary64 value: a sign bit with a magnitude, an infinity, or
  not-a-number. The magnitude of a finite value is kept as the rational number it
  denotes. \<open>round_double\<close> is rounding to the nearest representable magnitude, ties to
  even, with \<open>None\<close> when the rounded value is beyond the largest finite one.
\<close>

datatype pyfloat = Finite bool rat | Infinity bool | NaN

definition round_half_even :: "rat \<Rightarrow> int" where
  "round_half_even x =
     (let f = \<lfloor>x\<rfloor>; d = x - of_int f in
      if d < 1 / 2 then f
      else if 1 / 2 < d then f + 1
      else if even f then f else f + 1)"

function bit_length :: "nat \<Rightarrow> nat" where
  "bit_length n = (if n = 0 then 0 else Suc (bit_length (n div 2)))"
  by pat_completeness auto
termination
  by (relation "measure id") auto

text \<open>For \<open>q > 0\<close>, the integer \<open>e\<close> with \<open>2 ^ e \<le> q < 2 ^ (e + 1)\<close>.\<close>

definition floor_log2 :: "rat \<Rightarrow> int" where
  "floor_log2 q =
     (let (a, b) = quotient_of q;
          d = int (bit_length (nat a)) - int (bit_length (nat b))
      in if 2 powi d \<le> q then d else d - 1)"

definition round_double :: "rat \<Rightarrow> rat option" where
  "round_double q =
     (if q = 0 then Some 0
      else
        (let e = max (floor_log2 q) (- 1022);
             ulp = 2 powi (e - 52);
             r = of_int (round_half_even (q / ulp)) * ulp
         in if 2 powi 1024 \<le> r then None else Some r))"

text \<open>
  \<open>a / b\<close> on two \<open>int\<close>s: the correctly rounded quotient. A zero divisor raises
  \<open>ZeroDivisionError\<close>, a quotient too large for a float raises \<open>OverflowError\<close>, and a
  zero quotient carries the sign of the operands.
\<close>

definition int_truediv :: "int \<Rightarrow> int \<Rightarrow> py_error + pyfloat" where
  "int_truediv a b =
     (if b = 0 then Inl ZeroDivisionError
      else
        (case round_double (of_int \<bar>a\<bar> / of_int \<bar>b\<bar>) of
           None \<Rightarrow> Inl OverflowError
         | Some m \<Rightarrow> Inr (Finite ((a < 0) \<noteq> (b < 0)) m)))"

text \<open>\<open>x * y\<close> on two \<open>float\<close>s: overflow gives an infinity, no exception.\<close>

fun float_mul :: "pyfloat \<Rightarrow> pyfloat \<Rightarrow> pyfloat" where
  "float_mul (Finite s m) (Finite t n) =
     (case round_double (m * n) of
        None \<Rightarrow> Infinity (s \<noteq> t)
      | Some r \<Rightarrow> Finite (s \<noteq> t) r)"
| "float_mul (Finite s m) (Infinity t) = (if m = 0 then NaN else Infinity (s \<noteq> t))"
| "float_mul (Infinity s) (Finite t n) = (if n = 0 then NaN else Infinity (s \<noteq> t))"
| "float_mul (Infinity s) (Infinity t) = Infinity (s \<noteq> t)"
| "float_mul NaN y = NaN"
| "float_mul x NaN = NaN"

subsection \<open>Formatting\<close>

function str_nat :: "nat \<Rightarrow> ustring" where
  "str_nat n = (if n < 10 then [48 + n] else str_nat (n div 10) @ [48 + n mod 10])"
  by pat_completeness auto
termination
  by (relation "measure id") auto

definition sign_char :: "bool \<Rightarrow> ustring" where
  "sign_char negative = (if negative then ascii ''-'' else ascii ''+'')"

text \<open>\<open>"{:+d}".format(n)\<close>\<close>

definition format_plus_d :: "int \<Rightarrow> ustring" where
  "format_plus_d n = sign_char (n < 0) @ str_nat (nat \<bar>n\<bar>)"

text \<open>
  \<open>"{:+.2f}".format(x)\<close>: the sign, then the value correctly rounded to two decimals
  (ties of the exact binary value go to the even digit).
\<close>

definition format_plus_2f :: "pyfloat \<Rightarrow> ustring" where
  "format_plus_2f x =
     (case x of
        Finite s m \<Rightarrow>
          (let n = nat (round_half_even (m * 100)) in
           sign_char s @ str_nat (n div 100) @ ascii ''.'' @
             [48 + n div 10 mod 10, 48 + n mod 10])
      | Infinity s \<Rightarrow> sign_char s @ ascii ''inf''
      | NaN \<Rightarrow> ascii ''+nan'')"

section \<open>The diff formatter\<close>

definition MARKDOWN_TABLE_COLUMNS :: "ustring list" where
  "MARKDOWN_TABLE_COLUMNS =
     [ascii ''Method call or Contract deployment'', ascii ''Before'', ascii ''After'',
      ascii ''After - Before'', ascii ''(After - Before) / Before'']"

definition MARKDOWN_TABLE_ALIGNMENTS :: "ustring list" where
  "MARKDOWN_TABLE_ALIGNMENTS =
     [ascii '':-'', ascii '':-:'', ascii '':-:'', ascii '':-:'', ascii '':-:'']"

text \<open>
  What a printing function did: the lines it wrote to standard output, in order, and
  the exception that ended it, if one did.
\<close>

type_synonym printed = "ustring list \<times> py_error option"

definition raised :: "py_error \<Rightarrow> printed" where
  "raised e = ([], Some e)"

definition and_then :: "printed \<Rightarrow> printed \<Rightarrow> printed" where
  "and_then p q =
     (case snd p of
        Some e \<Rightarrow> p
      | None \<Rightarrow> (fst p @ fst q, snd q))"

definition print_list_in_markdown_table :: "ustring list \<Rightarrow> printed" where
  "print_list_in_markdown_table lst =
     ([ascii ''| '' @ join (ascii '' | '') lst @ ascii '' |''], None)"

definition dicts_union :: "(ustring \<times> 'a) list \<Rightarrow> (ustring \<times> 'b) list \<Rightarrow> ustring list" where
  "dicts_union d1 d2 = sorted_list_of_set (set (map fst d1) \<union> set (map fst d2))"

definition calculate_line :: "ustring \<Rightarrow> ustring \<Rightarrow> py_error + ustring list" where
  "calculate_line before_avg after_avg =
     (case py_int before_avg of
        None \<Rightarrow> Inl ValueError
      | Some before_int \<Rightarrow>
          (case py_int after_avg of
             None \<Rightarrow> Inl ValueError
           | Some after_int \<Rightarrow>
               (let diff = after_int - before_int in
                case int_truediv diff before_int of
                  Inl e \<Rightarrow> Inl e
                | Inr diff_pct \<Rightarrow>
                    Inr [before_avg, after_avg, format_plus_d diff,
                         format_plus_2f (float_mul (Finite False 100) diff_pct)
                           @ ascii ''%''])))"

record args =
  keep_zeros :: bool
  both :: bool

text \<open>\<open>d[key]['avg']\<close>\<close>

definition avg_of :: "subdict \<Rightarrow> ustring \<Rightarrow> py_error + ustring" where
  "avg_of d key =
     (case getitem d key of
        Inl e \<Rightarrow> Inl e
      | Inr labeled \<Rightarrow> getitem labeled ''avg'')"

definition print_table_line :: "subdict \<Rightarrow> subdict \<Rightarrow> ustring \<Rightarrow> args \<Rightarrow> printed" where
  "print_table_line before_data after_data key a =
     (let name = ascii ''`'' @ key @ ascii ''`'' in
      if has_key before_data key \<and> has_key after_data key then
        (case avg_of before_data key of
           Inl e \<Rightarrow> raised e
         | Inr before_avg \<Rightarrow>
             (case avg_of after_data key of
                Inl e \<Rightarrow> raised e
              | Inr after_avg \<Rightarrow>
                  if \<not> (\<not> keep_zeros a \<and> before_avg = after_avg) then
                    (case calculate_line before_avg after_avg of
                       Inl e \<Rightarrow> raised e
                     | Inr cols \<Rightarrow> print_list_in_markdown_table ([name] @ cols))
                  else ([], None)))
      else if \<not> both a then
        (if has_key before_data key then
           (case avg_of before_data key of
              Inl e \<Rightarrow> raised e
            | Inr before_avg \<Rightarrow>
                print_list_in_markdown_table
                  [name, before_avg, ascii ''-'', ascii ''-'', ascii ''-''])
         else if has_key after_data key then
           (case avg_of after_data key of
              Inl e \<Rightarrow> raised e
            | Inr after_avg \<Rightarrow>
                print_list_in_markdown_table
                  [name, ascii ''-'', after_avg, ascii ''-'', ascii ''-''])
         else ([], None))
      else ([], None))"

fun for_key_in :: "ustring list \<Rightarrow> subdict \<Rightarrow> subdict \<Rightarrow> args \<Rightarrow> printed" where
  "for_key_in [] before_data after_data a = ([], None)"
| "for_key_in (key # all_keys) before_data after_data a =
     and_then (print_table_line before_data after_data key a)
       (for_key_in all_keys before_data after_data a)"

text \<open>
  \<open>datakey\<close> is \<open>'methods'\<close> or \<open>'deployments'\<close>: here the selector of that field of
  the report.
\<close>

definition print_subdict_in_markdown_table ::
  "report \<Rightarrow> report \<Rightarrow> (report \<Rightarrow> subdict) \<Rightarrow> args \<Rightarrow> printed" where
  "print_subdict_in_markdown_table before_report after_report datakey a =
     (let before_data = datakey before_report;
          after_data = datakey after_report;
          all_keys = dicts_union before_data after_data
      in for_key_in all_keys before_data after_data a)"

definition format_markdown :: "report \<Rightarrow> report \<Rightarrow> args \<Rightarrow> printed" where
  "format_markdown before_report after_report a =
     and_then (print_list_in_markdown_table MARKDOWN_TABLE_COLUMNS)
       (and_then (print_list_in_markdown_table MARKDOWN_TABLE_ALIGNMENTS)
          (and_then (print_subdict_in_markdown_table before_report after_report methods a)
             (print_subdict_in_markdown_table before_report after_report deployments a)))"

section \<open>Example inputs\<close>

text \<open>The line \<^verbatim>\<open>| Foo . bar . 123 |\<close> with box bars and middle dots.\<close>

definition LINE_FOO_BAR :: ustring where
  "LINE_FOO_BAR = [BOX_VERTICAL] @ ascii '' Foo '' @ [MIDDLE_DOT] @ ascii '' bar '' @ [MIDDLE_DOT] @ ascii '' 123 '' @ [BOX_VERTICAL]"

text \<open>
  A table row as the report prints it: the columns between box bars, separated by
  middle dots, with a newline at the end.
\<close>

definition table_row :: "ustring list \<Rightarrow> ustring" where
  "table_row cols =
     [BOX_VERTICAL, 32] @ join [32, MIDDLE_DOT, 32] cols @ [32, BOX_VERTICAL, 10]"

definition LINE_CONTRACT :: ustring where
  "LINE_CONTRACT =
     table_row [ascii ''Contract'', ascii ''Method'', ascii ''Min'', ascii ''Max'',
                ascii ''Avg'', ascii ''# calls'', ascii ''eur (avg)'']"

definition LINE_METHOD :: ustring where
  "LINE_METHOD =
     table_row [ascii ''A'', ascii ''foo'', ascii ''90'', ascii ''110'', ascii ''100'',
                ascii ''2'', ascii ''-'']"

definition LINE_DEPLOYMENTS :: ustring where
  "LINE_DEPLOYMENTS =
     table_row [ascii ''Deployments'', ascii ''x'', ascii ''1'', ascii ''2'', ascii ''3'',
                ascii ''% of limit'', ascii ''-'']"

definition LINE_DEPLOY :: ustring where
  "LINE_DEPLOY =
     table_row [ascii ''A'', ascii ''-'', ascii ''-'', ascii ''500'', ascii ''1.7 %'',
                ascii ''-'']"

definition LINE_CONTRACT_6 :: ustring where
  "LINE_CONTRACT_6 =
     table_row [ascii ''Contract'', ascii ''1'', ascii ''2'', ascii ''3'', ascii ''4'',
                ascii ''5'']"

definition in_state :: "State \<Rightarrow> locals" where
  "in_state st = \<lparr>methods = [], deployments = [], state = st, next_state = st\<rparr>"

text \<open>A method record of \<open>A.foo\<close> with the given avg, and a deployment record of \<open>A\<close>.\<close>

definition method_record :: "ustring \<Rightarrow> labeled_data" where
  "method_record avg =
     zip METHOD_COLUMNS
       [ascii ''A'', ascii ''foo'', ascii ''90'', ascii ''110'', avg, ascii ''2'', ascii ''-'']"

definition deployment_record :: "ustring \<Rightarrow> labeled_data" where
  "deployment_record avg =
     zip DEPLOYMENT_COLUMNS
       [ascii ''A'', ascii ''-'', ascii ''-'', avg, ascii ''1.7 %'', ascii ''-'']"

definition report_A_foo :: "ustring \<Rightarrow> report" where
  "report_A_foo avg =
     \<lparr>methods = [(ascii ''A.foo'', method_record avg)], deployments = []\<rparr>"

definition NO_OPTIONS :: args where
  "NO_OPTIONS = \<lparr>keep_zeros = False, both = False\<rparr>"

section \<open>Properties of the line flattener\<close>

lemma split_on_not_Nil: "split_on sep s \<noteq> []"
  by (induction s) (auto split: list.splits)

lemma join_Cons: "ys \<noteq> [] \<Longrightarrow> join sep (x # ys) = x @ sep @ join sep ys"
  by (cases ys) auto

lemma join_split_on: "join [sep] (split_on sep s) = s"
proof (induction s)
  case Nil
  show ?case by simp
next
  case (Cons c cs)
  show ?case
  proof (cases "c = sep")
    case True
    with Cons show ?thesis by (simp add: join_Cons split_on_not_Nil)
  next
    case False
    obtain seg segs where sp: "split_on sep cs = seg # segs"
      using split_on_not_Nil [of sep cs] by (cases "split_on sep cs") auto
    with Cons False show ?thesis by (cases segs) auto
  qed
qed

lemma split_on_no_sep: "seg \<in> set (split_on sep s) \<Longrightarrow> sep \<notin> set seg"
  by (induction s arbitrary: seg) (auto split: if_splits list.splits)

lemma split_on_without_sep: "sep \<notin> set s \<Longrightarrow> split_on sep s = [s]"
  by (induction s) auto

lemma dropWhile_all_Nil: "(\<forall>x\<in>set (dropWhile P xs). P x) \<longleftrightarrow> dropWhile P xs = []"
proof
  assume a: "\<forall>x\<in>set (dropWhile P xs). P x"
  show "dropWhile P xs = []"
  proof (rule ccontr)
    assume ne: "dropWhile P xs \<noteq> []"
    then have "hd (dropWhile P xs) \<in> set (dropWhile P xs)" by (rule hd_in_set)
    with a have "P (hd (dropWhile P xs))" by blast
    with hd_dropWhile [OF ne] show False by blast
  qed
next
  assume "dropWhile P xs = []"
  then show "\<forall>x\<in>set (dropWhile P xs). P x" by (simp only: list.set ball_empty)
qed

lemma strip_Nil_iff: "strip chars s = [] \<longleftrightarrow> set s \<subseteq> set chars"
proof -
  let ?P = "\<lambda>c. c \<in> set chars"
  have "strip chars s = [] \<longleftrightarrow> dropWhile ?P (rev (dropWhile ?P s)) = []"
    by (simp add: strip_def)
  also have "\<dots> \<longleftrightarrow> (\<forall>x\<in>set (dropWhile ?P s). ?P x)"
    by (simp add: dropWhile_eq_Nil_conv)
  also have "\<dots> \<longleftrightarrow> dropWhile ?P s = []" by (rule dropWhile_all_Nil)
  also have "\<dots> \<longleftrightarrow> (\<forall>x\<in>set s. ?P x)" by (simp add: dropWhile_eq_Nil_conv)
  finally show ?thesis by blast
qed

lemma last_dropWhile_same: "dropWhile P xs \<noteq> [] \<Longrightarrow> last (dropWhile P xs) = last xs"
  by (induction xs) (auto split: if_splits)

lemma strip_hd: "strip chars s \<noteq> [] \<Longrightarrow> hd (strip chars s) \<notin> set chars"
proof -
  assume ne: "strip chars s \<noteq> []"
  let ?P = "\<lambda>c. c \<in> set chars"
  let ?t = "dropWhile ?P s"
  from ne have d: "dropWhile ?P (rev ?t) \<noteq> []" by (simp add: strip_def)
  then have t: "?t \<noteq> []" by (auto dest: set_dropWhileD)
  have "hd (strip chars s) = last (dropWhile ?P (rev ?t))"
    using d by (simp add: strip_def hd_rev)
  also have "\<dots> = last (rev ?t)" using d by (rule last_dropWhile_same)
  also have "\<dots> = hd ?t" using t by (simp add: last_rev)
  finally show ?thesis using hd_dropWhile [OF t] by simp
qed

lemma strip_last: "strip chars s \<noteq> [] \<Longrightarrow> last (strip chars s) \<notin> set chars"
proof -
  assume ne: "strip chars s \<noteq> []"
  let ?P = "\<lambda>c. c \<in> set chars"
  let ?t = "dropWhile ?P s"
  from ne have d: "dropWhile ?P (rev ?t) \<noteq> []" by (simp add: strip_def)
  have "last (strip chars s) = hd (dropWhile ?P (rev ?t))"
    using d by (simp add: strip_def last_rev)
  then show ?thesis using hd_dropWhile [OF d] by simp
qed

lemma strip_decomp:
  "\<exists>p q. s = p @ strip chars s @ q \<and> set p \<subseteq> set chars \<and> set q \<subseteq> set chars"
proof -
  let ?P = "\<lambda>c. c \<in> set chars"
  let ?t = "dropWhile ?P s"
  let ?q = "rev (takeWhile ?P (rev ?t))"
  have 1: "s = takeWhile ?P s @ ?t" by simp
  have "rev (takeWhile ?P (rev ?t) @ dropWhile ?P (rev ?t)) = rev (rev ?t)"
    by (simp only: takeWhile_dropWhile_id)
  then have "rev (dropWhile ?P (rev ?t)) @ ?q = ?t"
    by (simp only: rev_append rev_rev_ident)
  then have 2: "?t = strip chars s @ ?q" by (simp only: strip_def)
  have 3: "set (takeWhile ?P s) \<subseteq> set chars" by (auto dest: set_takeWhileD)
  have 4: "set ?q \<subseteq> set chars" by (auto dest: set_takeWhileD)
  have "s = takeWhile ?P s @ strip chars s @ ?q"
    by (subst 2 [symmetric]) (rule 1)
  with 3 4 show ?thesis by blast
qed

lemma flatten_line_filter_map:
  "flatten_line line =
     filter (\<lambda>col. col \<noteq> []) (map (strip STRIP_CHARS) (split_on MIDDLE_DOT line))"
proof -
  have "concat (map (\<lambda>column. let col = strip cs column in if col \<noteq> [] then [col] else []) xs)
        = filter (\<lambda>col. col \<noteq> []) (map (strip cs) xs)" for cs xs
    by (induction xs) (auto simp: Let_def)
  then show ?thesis by (simp add: flatten_line_def)
qed

lemma flatten_line_one_segment: "MIDDLE_DOT \<notin> set line \<Longrightarrow> length (flatten_line line) \<le> 1"
  by (simp add: flatten_line_filter_map split_on_without_sep)

lemma flatten_line_only_separators:
  assumes "set line \<subseteq> insert MIDDLE_DOT (set STRIP_CHARS)"
  shows "flatten_line line = []"
proof -
  have "strip STRIP_CHARS seg = []" if "seg \<in> set (split_on MIDDLE_DOT line)" for seg
  proof -
    have "set (join [MIDDLE_DOT] (split_on MIDDLE_DOT line)) \<subseteq> insert MIDDLE_DOT (set STRIP_CHARS)"
      using assms by (simp only: join_split_on)
    moreover have "set seg \<subseteq> set (join sep segs)" if "seg \<in> set segs" for sep segs
      using that by (induction sep segs rule: join.induct) auto
    ultimately have "set seg \<subseteq> insert MIDDLE_DOT (set STRIP_CHARS)"
      using that by blast
    with split_on_no_sep [OF that] have "set seg \<subseteq> set STRIP_CHARS" by blast
    then show ?thesis by (simp only: strip_Nil_iff)
  qed
  then show ?thesis
    by (simp add: flatten_line_filter_map filter_empty_conv)
qed

lemma flatten_line_example:
  "flatten_line LINE_FOO_BAR = [ascii ''Foo'', ascii ''bar'', ascii ''123'']"
  by (simp add: LINE_FOO_BAR_def flatten_line_def ascii_def strip_def STRIP_CHARS_def MIDDLE_DOT_def
      BOX_VERTICAL_def)

text \<open>
  Claim C3. The flattener returns, in order, the segments of the line between middle
  dots, each stripped of box bars, pipes, spaces and newlines at both ends, keeping
  those that are not empty. The segments are those of the line: joined with middle
  dots they give the line back, and none contains a middle dot. Every returned column
  is non-empty and neither starts nor ends with a stripped character. A line with no
  middle dot gives at most one column, a line of separator characters only gives
  none, and the example line gives \<open>Foo\<close>, \<open>bar\<close>, \<open>123\<close>.
\<close>

theorem flatten_line_segments:
  "flatten_line line =
     filter (\<lambda>col. col \<noteq> []) (map (strip STRIP_CHARS) (split_on MIDDLE_DOT line))
   \<and> join [MIDDLE_DOT] (split_on MIDDLE_DOT line) = line
   \<and> (\<forall>seg \<in> set (split_on MIDDLE_DOT line). MIDDLE_DOT \<notin> set seg)
   \<and> (\<forall>col \<in> set (flatten_line line).
         col \<noteq> [] \<and> hd col \<notin> set STRIP_CHARS \<and> last col \<notin> set STRIP_CHARS)
   \<and> (MIDDLE_DOT \<notin> set line \<longrightarrow> length (flatten_line line) \<le> 1)
   \<and> (set line \<subseteq> insert MIDDLE_DOT (set STRIP_CHARS) \<longrightarrow> flatten_line line = [])
   \<and> flatten_line LINE_FOO_BAR = [ascii ''Foo'', ascii ''bar'', ascii ''123'']"
proof -
  have "col \<noteq> [] \<and> hd col \<notin> set STRIP_CHARS \<and> last col \<notin> set STRIP_CHARS"
    if "col \<in> set (flatten_line line)" for col
  proof -
    from that obtain seg where "col = strip STRIP_CHARS seg" and "col \<noteq> []"
      by (auto simp: flatten_line_filter_map)
    then show ?thesis using strip_hd strip_last by blast
  qed
  then show ?thesis
    using flatten_line_filter_map join_split_on split_on_no_sep flatten_line_one_segment
      flatten_line_only_separators flatten_line_example
    by blast
qed

theorem flatten_line_segments_witness:
  "MIDDLE_DOT \<notin> set ([BOX_VERTICAL] @ ascii '' Foo '' @ [BOX_VERTICAL])
   \<and> flatten_line ([BOX_VERTICAL] @ ascii '' Foo '' @ [BOX_VERTICAL]) = [ascii ''Foo'']
   \<and> length (flatten_line ([BOX_VERTICAL] @ ascii '' Foo '' @ [BOX_VERTICAL])) \<le> 1
   \<and> set [BOX_VERTICAL, 32, MIDDLE_DOT, 124, 10] \<subseteq> insert MIDDLE_DOT (set STRIP_CHARS)
   \<and> flatten_line [BOX_VERTICAL, 32, MIDDLE_DOT, 124, 10] = []"
  using flatten_line_segments [of "[BOX_VERTICAL] @ ascii '' Foo '' @ [BOX_VERTICAL]"]
    flatten_line_segments [of "[BOX_VERTICAL, 32, MIDDLE_DOT, 124, 10]"]
  by (simp add: ascii_def strip_def STRIP_CHARS_def MIDDLE_DOT_def BOX_VERTICAL_def)

section \<open>Properties of the report parser\<close>

lemma setitem_fresh: "k \<notin> fst ` set d \<Longrightarrow> setitem d k v = d @ [(k, v)]"
  by (induction d) (auto simp: setitem_def)

lemma foldl_setitem_distinct:
  "distinct (map fst (d @ ps)) \<Longrightarrow> foldl (\<lambda>d (k, v). setitem d k v) d ps = d @ ps"
proof (induction ps arbitrary: d)
  case Nil
  show ?case by simp
next
  case (Cons p ps)
  obtain k v where p: "p = (k, v)" by (cases p)
  from Cons.prems p have fresh: "k \<notin> fst ` set d" by auto
  from Cons.prems p have "distinct (map fst ((d @ [(k, v)]) @ ps))" by simp
  from Cons.IH [OF this] show ?case by (simp add: p setitem_fresh [OF fresh])
qed

lemma dict_distinct: "distinct (map fst ps) \<Longrightarrow> dict ps = ps"
  using foldl_setitem_distinct [of "[]" ps] by (simp add: dict_def)

lemma dict_zip: "distinct cols \<Longrightarrow> dict (zip cols data) = zip cols data"
  by (rule dict_distinct) (simp add: map_fst_zip_take distinct_take)

lemma map_of_setitem: "map_of (setitem d k v) = (map_of d)(k \<mapsto> v)"
  by (simp add: setitem_def update_conv')

lemma getitem_setitem: "getitem (setitem d k v) k' = (if k' = k then Inr v else getitem d k')"
  by (simp add: getitem_def map_of_setitem)

lemma has_key_setitem: "has_key (setitem d k v) k' \<longleftrightarrow> k' = k \<or> has_key d k'"
  by (auto simp: has_key_def setitem_def dom_update image_iff)

lemma length_7E:
  assumes "length (xs :: 'a list) = 7"
  obtains a b c d e f g where "xs = [a, b, c, d, e, f, g]"
  using assms by (auto simp: eval_nat_numeral length_Suc_conv)

lemma length_6E:
  assumes "length (xs :: 'a list) = 6"
  obtains a b c d e f where "xs = [a, b, c, d, e, f]"
  using assms by (auto simp: eval_nat_numeral length_Suc_conv)

lemma method_record_fields:
  assumes "length data = 7"
  shows "dict (zip METHOD_COLUMNS data) = zip METHOD_COLUMNS data"
    and "getitem (zip METHOD_COLUMNS data) ''contract'' = Inr (data ! 0)"
    and "getitem (zip METHOD_COLUMNS data) ''method'' = Inr (data ! 1)"
    and "getitem (zip METHOD_COLUMNS data) ''avg'' = Inr (data ! 4)"
proof -
  show "dict (zip METHOD_COLUMNS data) = zip METHOD_COLUMNS data"
    by (rule dict_zip) (simp add: METHOD_COLUMNS_def)
  from assms obtain a b c d e f g where "data = [a, b, c, d, e, f, g]" by (rule length_7E)
  then show "getitem (zip METHOD_COLUMNS data) ''contract'' = Inr (data ! 0)"
    and "getitem (zip METHOD_COLUMNS data) ''method'' = Inr (data ! 1)"
    and "getitem (zip METHOD_COLUMNS data) ''avg'' = Inr (data ! 4)"
    by (simp_all add: METHOD_COLUMNS_def getitem_def)
qed

lemma deployment_record_fields:
  assumes "length data = 6"
  shows "dict (zip DEPLOYMENT_COLUMNS data) = zip DEPLOYMENT_COLUMNS data"
    and "getitem (zip DEPLOYMENT_COLUMNS data) ''contract'' = Inr (data ! 0)"
    and "getitem (zip DEPLOYMENT_COLUMNS data) ''avg'' = Inr (data ! 3)"
proof -
  show "dict (zip DEPLOYMENT_COLUMNS data) = zip DEPLOYMENT_COLUMNS data"
    by (rule dict_zip) (simp add: DEPLOYMENT_COLUMNS_def)
  from assms obtain a b c d e f where "data = [a, b, c, d, e, f]" by (rule length_6E)
  then show "getitem (zip DEPLOYMENT_COLUMNS data) ''contract'' = Inr (data ! 0)"
    and "getitem (zip DEPLOYMENT_COLUMNS data) ''avg'' = Inr (data ! 3)"
    by (simp_all add: DEPLOYMENT_COLUMNS_def getitem_def)
qed

lemma loop_body_HEADER:
  "state s = HEADER \<Longrightarrow>
   loop_body s line =
     Inr (if contains line (ascii ''Contract'')
          then s\<lparr>state := METHODS, next_state := METHODS\<rparr>
          else s\<lparr>state := next_state s\<rparr>)"
  by (simp add: loop_body_def)

lemma loop_body_METHODS_marker:
  "state s = METHODS \<Longrightarrow> contains line (ascii ''Deployments'') \<Longrightarrow>
   loop_body s line = Inr (s\<lparr>state := DEPLOYMENTS, next_state := DEPLOYMENTS\<rparr>)"
  by (simp add: loop_body_def)

lemma loop_body_METHODS_data:
  assumes "state s = METHODS" and "\<not> contains line (ascii ''Deployments'')"
  shows "loop_body s line =
     Inr (if length (flatten_line line) = 7
          then s\<lparr>methods :=
                   setitem (methods s)
                     (flatten_line line ! 0 @ ascii ''.'' @ flatten_line line ! 1)
                     (zip METHOD_COLUMNS (flatten_line line)),
                 state := next_state s\<rparr>
          else s\<lparr>state := next_state s\<rparr>)"
proof (cases "length (flatten_line line) = 7")
  case True
  have len: "length METHOD_COLUMNS = 7" by (simp add: METHOD_COLUMNS_def)
  show ?thesis
    using assms True by (simp add: loop_body_def Let_def len method_record_fields [OF True])
next
  case False
  have len: "length METHOD_COLUMNS = 7" by (simp add: METHOD_COLUMNS_def)
  show ?thesis using assms False by (simp add: loop_body_def Let_def len)
qed

lemma loop_body_DEPLOYMENTS:
  assumes "state s = DEPLOYMENTS"
  shows "loop_body s line =
     Inr (if length (flatten_line line) = 6
          then s\<lparr>deployments :=
                   setitem (deployments s) (flatten_line line ! 0)
                     (zip DEPLOYMENT_COLUMNS (flatten_line line)),
                 state := next_state s\<rparr>
          else s\<lparr>state := next_state s\<rparr>)"
proof (cases "length (flatten_line line) = 6")
  case True
  have len: "length DEPLOYMENT_COLUMNS = 6" by (simp add: DEPLOYMENT_COLUMNS_def)
  show ?thesis
    using assms True by (simp add: loop_body_def Let_def len deployment_record_fields [OF True])
next
  case False
  have len: "length DEPLOYMENT_COLUMNS = 6" by (simp add: DEPLOYMENT_COLUMNS_def)
  show ?thesis using assms False by (simp add: loop_body_def Let_def len)
qed

lemma loop_body_total: "\<exists>s'. loop_body s line = Inr s'"
proof (cases "state s")
  case HEADER
  then show ?thesis by (simp add: loop_body_HEADER)
next
  case METHODS
  then show ?thesis
    by (cases "contains line (ascii ''Deployments'')")
      (simp_all add: loop_body_METHODS_marker loop_body_METHODS_data)
next
  case DEPLOYMENTS
  then show ?thesis by (simp add: loop_body_DEPLOYMENTS)
qed

lemma loop_body_sync: "loop_body s line = Inr s' \<Longrightarrow> state s' = next_state s'"
  by (auto simp: loop_body_def split: sum.splits)

lemma for_line_in_append:
  "for_line_in (xs @ ys) s =
     (case for_line_in xs s of Inl e \<Rightarrow> Inl e | Inr s' \<Rightarrow> for_line_in ys s')"
  by (induction xs arbitrary: s) (auto split: sum.splits)

lemma for_line_in_total: "\<exists>s'. for_line_in fp s = Inr s'"
proof (induction fp arbitrary: s)
  case Nil
  show ?case by simp
next
  case (Cons line fp)
  obtain s1 where "loop_body s line = Inr s1" using loop_body_total by blast
  with Cons show ?case by simp
qed

lemma for_line_in_sync:
  "for_line_in fp s = Inr s' \<Longrightarrow> state s = next_state s \<Longrightarrow> state s' = next_state s'"
proof (induction fp arbitrary: s)
  case Nil
  then show ?case by simp
next
  case (Cons line fp)
  obtain s1 where s1: "loop_body s line = Inr s1" using loop_body_total by blast
  with Cons.prems have "for_line_in fp s1 = Inr s'" by simp
  from Cons.IH [OF this loop_body_sync [OF s1]] show ?case .
qed

lemma reachable_sync: "for_line_in fp initial_locals = Inr s \<Longrightarrow> next_state s = state s"
  using for_line_in_sync [of fp initial_locals s] by (simp add: initial_locals_def)

lemma for_line_in_snoc:
  "for_line_in pre s0 = Inr s \<Longrightarrow> for_line_in (pre @ [line]) s0 = loop_body s line"
  by (simp add: for_line_in_append split: sum.splits)

lemmas example_line_defs =
  table_row_def ascii_def flatten_line_def strip_def STRIP_CHARS_def MIDDLE_DOT_def BOX_VERTICAL_def

lemma flatten_LINE_CONTRACT:
  "flatten_line LINE_CONTRACT =
     [ascii ''Contract'', ascii ''Method'', ascii ''Min'', ascii ''Max'',
      ascii ''Avg'', ascii ''# calls'', ascii ''eur (avg)'']"
  by (simp add: LINE_CONTRACT_def example_line_defs)

lemma flatten_LINE_METHOD:
  "flatten_line LINE_METHOD =
     [ascii ''A'', ascii ''foo'', ascii ''90'', ascii ''110'', ascii ''100'', ascii ''2'', ascii ''-'']"
  by (simp add: LINE_METHOD_def example_line_defs)

lemma flatten_LINE_DEPLOYMENTS:
  "flatten_line LINE_DEPLOYMENTS =
     [ascii ''Deployments'', ascii ''x'', ascii ''1'', ascii ''2'', ascii ''3'',
      ascii ''% of limit'', ascii ''-'']"
  by (simp add: LINE_DEPLOYMENTS_def example_line_defs)

lemma flatten_LINE_DEPLOY:
  "flatten_line LINE_DEPLOY =
     [ascii ''A'', ascii ''-'', ascii ''-'', ascii ''500'', ascii ''1.7 %'', ascii ''-'']"
  by (simp add: LINE_DEPLOY_def example_line_defs)

lemma flatten_LINE_CONTRACT_6:
  "flatten_line LINE_CONTRACT_6 =
     [ascii ''Contract'', ascii ''1'', ascii ''2'', ascii ''3'', ascii ''4'', ascii ''5'']"
  by (simp add: LINE_CONTRACT_6_def example_line_defs)

lemma contains_examples:
  "contains LINE_CONTRACT (ascii ''Contract'')"
  "contains LINE_DEPLOYMENTS (ascii ''Deployments'')"
  "contains LINE_CONTRACT_6 (ascii ''Contract'')"
  "\<not> contains LINE_METHOD (ascii ''Deployments'')"
  "\<not> contains LINE_METHOD (ascii ''Contract'')"
  "\<not> contains LINE_DEPLOY (ascii ''Deployments'')"
  "\<not> contains LINE_DEPLOY (ascii ''Contract'')"
  by (simp_all add: LINE_CONTRACT_def LINE_DEPLOYMENTS_def LINE_CONTRACT_6_def LINE_METHOD_def
      LINE_DEPLOY_def table_row_def ascii_def MIDDLE_DOT_def BOX_VERTICAL_def)

text \<open>
  Claim C2. A line processed in the METHODS state that does not contain
  \<open>Deployments\<close> creates a record exactly when it flattens to 7 values: the record,
  the columns zipped with the method column names, is stored under the first value,
  a dot and the second value, replacing what was under that key and leaving every
  other key as it was; with any other count the methods mapping is unchanged. The
  deployments mapping is unchanged either way. In the DEPLOYMENTS state the same holds
  with 6 values, the deployment column names and the first value as key.
\<close>

theorem record_iff_column_count:
  "(state s = METHODS \<and> \<not> contains line (ascii ''Deployments'') \<longrightarrow>
      (\<exists>s'. loop_body s line = Inr s' \<and> deployments s' = deployments s \<and>
         (let data = flatten_line line;
              key = data ! 0 @ ascii ''.'' @ data ! 1;
              labeled = zip METHOD_COLUMNS data
          in if length data = 7
             then methods s' = setitem (methods s) key labeled
                \<and> getitem (methods s') key = Inr labeled
                \<and> (\<forall>k. k \<noteq> key \<longrightarrow> getitem (methods s') k = getitem (methods s) k)
             else methods s' = methods s)))
   \<and> (state s = DEPLOYMENTS \<longrightarrow>
      (\<exists>s'. loop_body s line = Inr s' \<and> methods s' = methods s \<and>
         (let data = flatten_line line;
              key = data ! 0;
              labeled = zip DEPLOYMENT_COLUMNS data
          in if length data = 6
             then deployments s' = setitem (deployments s) key labeled
                \<and> getitem (deployments s') key = Inr labeled
                \<and> (\<forall>k. k \<noteq> key \<longrightarrow> getitem (deployments s') k = getitem (deployments s) k)
             else deployments s' = deployments s)))"
proof (intro conjI impI)
  assume "state s = METHODS \<and> \<not> contains line (ascii ''Deployments'')"
  then show "\<exists>s'. loop_body s line = Inr s' \<and> deployments s' = deployments s \<and>
         (let data = flatten_line line;
              key = data ! 0 @ ascii ''.'' @ data ! 1;
              labeled = zip METHOD_COLUMNS data
          in if length data = 7
             then methods s' = setitem (methods s) key labeled
                \<and> getitem (methods s') key = Inr labeled
                \<and> (\<forall>k. k \<noteq> key \<longrightarrow> getitem (methods s') k = getitem (methods s) k)
             else methods s' = methods s)"
    by (simp add: loop_body_METHODS_data Let_def getitem_setitem)
next
  assume "state s = DEPLOYMENTS"
  then show "\<exists>s'. loop_body s line = Inr s' \<and> methods s' = methods s \<and>
         (let data = flatten_line line;
              key = data ! 0;
              labeled = zip DEPLOYMENT_COLUMNS data
          in if length data = 6
             then deployments s' = setitem (deployments s) key labeled
                \<and> getitem (deployments s') key = Inr labeled
                \<and> (\<forall>k. k \<noteq> key \<longrightarrow> getitem (deployments s') k = getitem (deployments s) k)
             else deployments s' = deployments s)"
    by (simp add: loop_body_DEPLOYMENTS Let_def getitem_setitem)
qed

theorem record_iff_column_count_witness:
  "state (in_state METHODS) = METHODS \<and> \<not> contains LINE_METHOD (ascii ''Deployments'')
   \<and> length (flatten_line LINE_METHOD) = 7
   \<and> (\<exists>s'. loop_body (in_state METHODS) LINE_METHOD = Inr s'
         \<and> methods s' = [(ascii ''A.foo'', zip METHOD_COLUMNS (flatten_line LINE_METHOD))]
         \<and> deployments s' = [])
   \<and> state (in_state DEPLOYMENTS) = DEPLOYMENTS
   \<and> length (flatten_line LINE_DEPLOY) = 6
   \<and> (\<exists>s'. loop_body (in_state DEPLOYMENTS) LINE_DEPLOY = Inr s'
         \<and> deployments s' = [(ascii ''A'', zip DEPLOYMENT_COLUMNS (flatten_line LINE_DEPLOY))]
         \<and> methods s' = [])
   \<and> length (flatten_line LINE_DEPLOY) \<noteq> 7
   \<and> (\<exists>s'. loop_body (in_state METHODS) LINE_DEPLOY = Inr s' \<and> methods s' = [] \<and> deployments s' = [])"
  using record_iff_column_count [of "in_state METHODS" LINE_METHOD]
    record_iff_column_count [of "in_state DEPLOYMENTS" LINE_DEPLOY]
    record_iff_column_count [of "in_state METHODS" LINE_DEPLOY]
  apply (simp only: contains_examples flatten_LINE_METHOD flatten_LINE_DEPLOY)
  apply (simp add: in_state_def setitem_def ascii_def Let_def)
  apply blast
  done

lemma for_line_in_no_contract:
  assumes "\<forall>line \<in> set fp. \<not> contains line (ascii ''Contract'')"
    and "state s = HEADER" and "next_state s = HEADER"
  shows "for_line_in fp s = Inr s"
  using assms
proof (induction fp)
  case Nil
  show ?case by simp
next
  case (Cons line fp)
  from Cons.prems have "loop_body s line = Inr s"
    by (simp add: loop_body_HEADER)
  with Cons show ?case by simp
qed

lemma for_line_in_stays_in_DEPLOYMENTS:
  assumes "state s = DEPLOYMENTS" and "next_state s = DEPLOYMENTS"
  shows "\<exists>s'. for_line_in fp s = Inr s' \<and> state s' = DEPLOYMENTS \<and> next_state s' = DEPLOYMENTS"
  using assms
proof (induction fp arbitrary: s)
  case Nil
  then show ?case by simp
next
  case (Cons line fp)
  let ?s1 = "if length (flatten_line line) = 6
          then s\<lparr>deployments :=
                   setitem (deployments s) (flatten_line line ! 0)
                     (zip DEPLOYMENT_COLUMNS (flatten_line line)),
                 state := next_state s\<rparr>
          else s\<lparr>state := next_state s\<rparr>"
  from Cons.prems(1) have step: "loop_body s line = Inr ?s1" by (rule loop_body_DEPLOYMENTS)
  from Cons.prems have "state ?s1 = DEPLOYMENTS" "next_state ?s1 = DEPLOYMENTS" by simp_all
  from Cons.IH [OF this] step show ?case by simp
qed

text \<open>
  Claim C4. Let the parser have read the lines \<open>pre\<close> of a file and be in the state
  \<open>s\<close>. Reading one more line always succeeds. From HEADER the next state is METHODS
  if the line contains \<open>Contract\<close> and HEADER otherwise, and no record is stored. From
  METHODS a line containing \<open>Deployments\<close> leads to DEPLOYMENTS and stores no record,
  whatever it flattens to; any other line stays in METHODS. From DEPLOYMENTS every
  continuation of the file ends in DEPLOYMENTS. The new state is the one the rest of
  the file is read in.
\<close>

theorem transition_line_not_parsed:
  assumes "for_line_in pre initial_locals = Inr s"
  shows "\<exists>s'. for_line_in (pre @ [line]) initial_locals = Inr s'
     \<and> (\<forall>rest. for_line_in (pre @ line # rest) initial_locals = for_line_in rest s')
     \<and> (state s = HEADER \<longrightarrow>
          methods s' = methods s \<and> deployments s' = deployments s \<and>
          state s' = (if contains line (ascii ''Contract'') then METHODS else HEADER))
     \<and> (state s = METHODS \<longrightarrow>
          (if contains line (ascii ''Deployments'')
           then methods s' = methods s \<and> deployments s' = deployments s \<and> state s' = DEPLOYMENTS
           else state s' = METHODS))
     \<and> (state s = DEPLOYMENTS \<longrightarrow>
          state s' = DEPLOYMENTS \<and>
          (\<forall>rest. \<exists>s''. for_line_in (pre @ rest) initial_locals = Inr s'' \<and> state s'' = DEPLOYMENTS))"
proof -
  have sync: "next_state s = state s" using assms by (rule reachable_sync)
  obtain s' where step: "loop_body s line = Inr s'" using loop_body_total by blast
  have 1: "for_line_in (pre @ [line]) initial_locals = Inr s'"
    using for_line_in_snoc [OF assms] step by simp
  have 2: "for_line_in (pre @ line # rest) initial_locals = for_line_in rest s'" for rest
    using assms step by (simp add: for_line_in_append)
  have 3: "methods s' = methods s \<and> deployments s' = deployments s \<and>
          state s' = (if contains line (ascii ''Contract'') then METHODS else HEADER)"
    if "state s = HEADER"
    using step that sync by (auto simp: loop_body_HEADER)
  have 4: "if contains line (ascii ''Deployments'')
           then methods s' = methods s \<and> deployments s' = deployments s \<and> state s' = DEPLOYMENTS
           else state s' = METHODS"
    if "state s = METHODS"
  proof (cases "contains line (ascii ''Deployments'')")
    case True
    with step that show ?thesis by (auto simp: loop_body_METHODS_marker)
  next
    case False
    with step that sync show ?thesis by (auto simp: loop_body_METHODS_data split: if_splits)
  qed
  have 5: "state s' = DEPLOYMENTS \<and>
          (\<forall>rest. \<exists>s''. for_line_in (pre @ rest) initial_locals = Inr s'' \<and> state s'' = DEPLOYMENTS)"
    if "state s = DEPLOYMENTS"
  proof
    show "state s' = DEPLOYMENTS"
      using step that sync by (auto simp: loop_body_DEPLOYMENTS split: if_splits)
    show "\<forall>rest. \<exists>s''. for_line_in (pre @ rest) initial_locals = Inr s'' \<and> state s'' = DEPLOYMENTS"
    proof
      fix rest
      from that sync have "next_state s = DEPLOYMENTS" by simp
      from for_line_in_stays_in_DEPLOYMENTS [OF that this, of rest]
      show "\<exists>s''. for_line_in (pre @ rest) initial_locals = Inr s'' \<and> state s'' = DEPLOYMENTS"
        using assms by (auto simp: for_line_in_append)
    qed
  qed
  from 1 2 3 4 5 show ?thesis by blast
qed

lemma run_LINE_CONTRACT: "for_line_in [LINE_CONTRACT] initial_locals = Inr (in_state METHODS)"
  by (simp add: loop_body_HEADER initial_locals_def in_state_def contains_examples)

lemma run_LINE_DEPLOYMENTS:
  "for_line_in [LINE_CONTRACT, LINE_DEPLOYMENTS] initial_locals = Inr (in_state DEPLOYMENTS)"
  by (simp add: loop_body_HEADER loop_body_METHODS_marker initial_locals_def in_state_def
      contains_examples)

theorem transition_line_not_parsed_witness:
  "for_line_in [] initial_locals = Inr (in_state HEADER)
   \<and> contains LINE_CONTRACT (ascii ''Contract'') \<and> length (flatten_line LINE_CONTRACT) = 7
   \<and> (\<exists>s'. for_line_in ([] @ [LINE_CONTRACT]) initial_locals = Inr s'
         \<and> methods s' = [] \<and> deployments s' = [] \<and> state s' = METHODS)
   \<and> for_line_in [LINE_CONTRACT] initial_locals = Inr (in_state METHODS)
   \<and> contains LINE_DEPLOYMENTS (ascii ''Deployments'') \<and> length (flatten_line LINE_DEPLOYMENTS) = 7
   \<and> (\<exists>s'. for_line_in ([LINE_CONTRACT] @ [LINE_DEPLOYMENTS]) initial_locals = Inr s'
         \<and> methods s' = [] \<and> deployments s' = [] \<and> state s' = DEPLOYMENTS)
   \<and> for_line_in [LINE_CONTRACT, LINE_DEPLOYMENTS] initial_locals = Inr (in_state DEPLOYMENTS)
   \<and> (\<exists>s'. for_line_in ([LINE_CONTRACT, LINE_DEPLOYMENTS] @ [LINE_CONTRACT]) initial_locals = Inr s'
         \<and> state s' = DEPLOYMENTS)"
proof -
  have h0: "for_line_in [] initial_locals = Inr (in_state HEADER)"
    by (simp add: initial_locals_def in_state_def)
  note h1 = run_LINE_CONTRACT
  note h2 = run_LINE_DEPLOYMENTS
  have st: "state (in_state HEADER) = HEADER" "state (in_state METHODS) = METHODS"
    "state (in_state DEPLOYMENTS) = DEPLOYMENTS"
    "methods (in_state HEADER) = []" "deployments (in_state HEADER) = []"
    "methods (in_state METHODS) = []" "deployments (in_state METHODS) = []"
    by (simp_all add: in_state_def)
  have len: "length (flatten_line LINE_CONTRACT) = 7" "length (flatten_line LINE_DEPLOYMENTS) = 7"
    by (simp_all add: flatten_LINE_CONTRACT flatten_LINE_DEPLOYMENTS)
  show ?thesis
    using transition_line_not_parsed [OF h0, of LINE_CONTRACT]
      transition_line_not_parsed [OF h1, of LINE_DEPLOYMENTS]
      transition_line_not_parsed [OF h2, of LINE_CONTRACT]
      h0 h1 h2 len
    by (simp add: st contains_examples) blast
qed

lemma run_LINE_METHOD:
  "for_line_in [LINE_CONTRACT, LINE_METHOD] initial_locals =
     Inr ((in_state METHODS)\<lparr>methods :=
            [(ascii ''A.foo'', zip METHOD_COLUMNS (flatten_line LINE_METHOD))]\<rparr>)"
proof -
  have "for_line_in ([LINE_CONTRACT] @ [LINE_METHOD]) initial_locals
          = loop_body (in_state METHODS) LINE_METHOD"
    using run_LINE_CONTRACT by (rule for_line_in_snoc)
  moreover have "state (in_state METHODS) = METHODS" by (simp add: in_state_def)
  moreover have "length (flatten_line LINE_METHOD) = 7" by (simp add: flatten_LINE_METHOD)
  moreover have "flatten_line LINE_METHOD ! 0 @ ascii ''.'' @ flatten_line LINE_METHOD ! 1
      = ascii ''A.foo''"
    by (simp add: flatten_LINE_METHOD ascii_def)
  ultimately show ?thesis
    by (simp add: loop_body_METHODS_data contains_examples in_state_def setitem_def)
qed

text \<open>
  Claim C9. For every file the parser returns, without raising, the two mappings as
  the loop left them, whatever the last state was. A file with no line containing
  \<open>Contract\<close> gives two empty mappings. A file that ends in the METHODS state gives
  the method records read so far: the header line followed by one method row gives
  that one record and no deployment.
\<close>

theorem eof_returns_accumulated:
  "(\<exists>s. for_line_in fp initial_locals = Inr s \<and>
        new_report_dict_from_file fp = Inr \<lparr>methods = methods s, deployments = deployments s\<rparr>)
   \<and> ((\<forall>line \<in> set fp. \<not> contains line (ascii ''Contract'')) \<longrightarrow>
        new_report_dict_from_file fp = Inr \<lparr>methods = [], deployments = []\<rparr>)
   \<and> (\<exists>s. for_line_in [LINE_CONTRACT, LINE_METHOD] initial_locals = Inr s \<and> state s = METHODS)
   \<and> new_report_dict_from_file [LINE_CONTRACT, LINE_METHOD] =
        Inr \<lparr>methods = [(ascii ''A.foo'', zip METHOD_COLUMNS (flatten_line LINE_METHOD))],
             deployments = []\<rparr>"
proof (intro conjI impI)
  obtain s where "for_line_in fp initial_locals = Inr s" using for_line_in_total by blast
  then show "\<exists>s. for_line_in fp initial_locals = Inr s \<and>
        new_report_dict_from_file fp = Inr \<lparr>methods = methods s, deployments = deployments s\<rparr>"
    by (simp add: new_report_dict_from_file_def)
next
  assume "\<forall>line \<in> set fp. \<not> contains line (ascii ''Contract'')"
  then have "for_line_in fp initial_locals = Inr initial_locals"
    by (rule for_line_in_no_contract) (simp_all add: initial_locals_def)
  then show "new_report_dict_from_file fp = Inr \<lparr>methods = [], deployments = []\<rparr>"
    by (simp add: new_report_dict_from_file_def initial_locals_def)
next
  show "\<exists>s. for_line_in [LINE_CONTRACT, LINE_METHOD] initial_locals = Inr s \<and> state s = METHODS"
    by (simp only: run_LINE_METHOD) (simp add: in_state_def)
next
  show "new_report_dict_from_file [LINE_CONTRACT, LINE_METHOD] =
        Inr \<lparr>methods = [(ascii ''A.foo'', zip METHOD_COLUMNS (flatten_line LINE_METHOD))],
             deployments = []\<rparr>"
    by (simp only: new_report_dict_from_file_def run_LINE_METHOD) (simp add: in_state_def)
qed

theorem eof_returns_accumulated_witness:
  "\<not> contains LINE_METHOD (ascii ''Contract'') \<and> \<not> contains LINE_DEPLOY (ascii ''Contract'')
   \<and> new_report_dict_from_file [LINE_METHOD, LINE_DEPLOY] = Inr \<lparr>methods = [], deployments = []\<rparr>"
proof -
  have h: "\<forall>line \<in> set [LINE_METHOD, LINE_DEPLOY]. \<not> contains line (ascii ''Contract'')"
    by (simp add: contains_examples)
  show ?thesis
    using h eof_returns_accumulated [of "[LINE_METHOD, LINE_DEPLOY]"]
    by (simp add: contains_examples)
qed

text \<open>
  Claim C10. Once the parser has reached the DEPLOYMENTS state, the next line is
  flattened whatever it contains, \<open>Contract\<close> and \<open>Deployments\<close> included: with
  exactly 6 values it is stored as a deployment record under its first value (in place
  of an earlier record of that key), with any other count nothing changes; the state
  stays DEPLOYMENTS.
\<close>

theorem deployments_state_ignores_markers:
  assumes "for_line_in pre initial_locals = Inr s" and "state s = DEPLOYMENTS"
  shows "for_line_in (pre @ [line]) initial_locals =
     Inr (if length (flatten_line line) = 6
          then s\<lparr>deployments :=
                   setitem (deployments s) (flatten_line line ! 0)
                     (zip DEPLOYMENT_COLUMNS (flatten_line line))\<rparr>
          else s)"
proof -
  have "next_state s = state s" using assms(1) by (rule reachable_sync)
  then have "s\<lparr>state := next_state s\<rparr> = s" by simp
  moreover have "for_line_in (pre @ [line]) initial_locals = loop_body s line"
    using assms(1) by (rule for_line_in_snoc)
  ultimately show ?thesis
    using assms(2) \<open>next_state s = state s\<close> by (simp add: loop_body_DEPLOYMENTS)
qed

theorem deployments_state_ignores_markers_witness:
  "for_line_in [LINE_CONTRACT, LINE_DEPLOYMENTS] initial_locals = Inr (in_state DEPLOYMENTS)
   \<and> state (in_state DEPLOYMENTS) = DEPLOYMENTS
   \<and> contains LINE_CONTRACT_6 (ascii ''Contract'')
   \<and> for_line_in ([LINE_CONTRACT, LINE_DEPLOYMENTS] @ [LINE_CONTRACT_6]) initial_locals =
       Inr ((in_state DEPLOYMENTS)\<lparr>deployments :=
              [(ascii ''Contract'',
                zip DEPLOYMENT_COLUMNS
                  [ascii ''Contract'', ascii ''1'', ascii ''2'', ascii ''3'', ascii ''4'',
                   ascii ''5''])]\<rparr>)
   \<and> contains LINE_DEPLOYMENTS (ascii ''Deployments'')
   \<and> for_line_in ([LINE_CONTRACT, LINE_DEPLOYMENTS] @ [LINE_DEPLOYMENTS]) initial_locals =
       Inr (in_state DEPLOYMENTS)"
proof -
  note h1 = run_LINE_DEPLOYMENTS
  have h2: "state (in_state DEPLOYMENTS) = DEPLOYMENTS" by (simp add: in_state_def)
  have d: "deployments (in_state DEPLOYMENTS) = []" by (simp add: in_state_def)
  show ?thesis
    using deployments_state_ignores_markers [OF h1 h2, of LINE_CONTRACT_6]
      deployments_state_ignores_markers [OF h1 h2, of LINE_DEPLOYMENTS] h1 h2
    by (simp add: flatten_LINE_CONTRACT_6 flatten_LINE_DEPLOYMENTS contains_examples d
        setitem_def)
qed

section \<open>Properties of the diff formatter\<close>

lemma str_nat_small: "n < 10 \<Longrightarrow> str_nat n = [48 + n]"
  by simp

lemma py_int_100: "py_int (ascii ''100'') = Some 100"
  by (simp add: py_int_def py_digits_def is_digit_def is_space_def ascii_def)

lemma py_int_150: "py_int (ascii ''150'') = Some 150"
  by (simp add: py_int_def py_digits_def is_digit_def is_space_def ascii_def)





lemma quotient_of_half: "quotient_of (1 / 2) = (1, 2)"
proof -
  have e: "(1 / 2 :: rat) = Fract 1 2" by (simp add: Fract_of_int_quotient)
  show ?thesis by (subst e) (simp add: quotient_of_Fract Rat.normalize_def)
qed

lemma floor_log2_half: "floor_log2 (1 / 2) = - 1"
  by (simp add: floor_log2_def quotient_of_half)

lemma floor_log2_50: "floor_log2 50 = 5"
  by (simp add: floor_log2_def)

lemma round_half_even_int: "round_half_even (of_int n) = n"
  by (simp add: round_half_even_def)

lemma round_double_half: "round_double (1 / 2) = Some (1 / 2)"
proof -
  have "(1 / 2) / (2 powi (- 1 - 52)) = (of_int (2 ^ 52) :: rat)"
    by (simp add: power_int_minus)
  then have "round_half_even ((1 / 2) / (2 powi (- 1 - 52))) = 2 ^ 52"
    by (simp only: round_half_even_int)
  then show ?thesis
    by (simp add: round_double_def floor_log2_half Let_def power_int_minus)
qed

lemma round_double_50: "round_double 50 = Some 50"
proof -
  have "50 / (2 powi (5 - 52)) = (of_int (50 * 2 ^ 47) :: rat)"
    by (simp add: power_int_minus)
  then have "round_half_even (50 / (2 powi (5 - 52))) = 50 * 2 ^ 47"
    by (simp only: round_half_even_int)
  then show ?thesis
    by (simp add: round_double_def floor_log2_50 Let_def power_int_minus)
qed

lemma int_truediv_50_100: "int_truediv 50 100 = Inr (Finite False (1 / 2))"
  using round_double_half by (simp add: int_truediv_def)

lemma float_mul_100_half: "float_mul (Finite False 100) (Finite False (1 / 2)) = Finite False 50"
  using round_double_50 by simp

lemma format_plus_2f_50: "format_plus_2f (Finite False 50) = ascii ''+50.00''"
proof -
  have "round_half_even (50 * 100) = 5000"
    using round_half_even_int [of 5000] by simp
  then show ?thesis
    by (simp add: format_plus_2f_def sign_char_def ascii_def)
qed

lemma format_plus_d_50: "format_plus_d 50 = ascii ''+50''"
  by (simp add: format_plus_d_def sign_char_def ascii_def)

lemma calculate_line_100_150:
  "calculate_line (ascii ''100'') (ascii ''150'') =
     Inr [ascii ''100'', ascii ''150'', ascii ''+50'', ascii ''+50.00%'']"
proof -
  have "format_plus_2f (Finite False 50) @ ascii ''%'' = ascii ''+50.00%''"
    by (simp add: format_plus_2f_50) (simp add: ascii_def)
  then show ?thesis
    by (simp add: calculate_line_def py_int_100 py_int_150 int_truediv_50_100
        float_mul_100_half format_plus_d_50 del: float_mul.simps)
qed

lemma has_key_map_of: "has_key d k \<longleftrightarrow> map_of d k \<noteq> None"
  by (simp add: has_key_def map_of_eq_None_iff)

lemma avg_of_Inr:
  "map_of d key = Some labeled \<Longrightarrow> map_of labeled ''avg'' = Some v \<Longrightarrow> avg_of d key = Inr v"
  by (simp add: avg_of_def getitem_def)


lemma print_table_line_both_sides:
  assumes "has_key before_data key" and "has_key after_data key"
    and "avg_of before_data key = Inr before_avg" and "avg_of after_data key = Inr after_avg"
  shows "print_table_line before_data after_data key a =
     (if \<not> keep_zeros a \<and> before_avg = after_avg then ([], None)
      else (case calculate_line before_avg after_avg of
              Inl e \<Rightarrow> raised e
            | Inr cols \<Rightarrow>
                print_list_in_markdown_table ([ascii ''`'' @ key @ ascii ''`''] @ cols)))"
  using assms by (simp add: print_table_line_def Let_def)

lemma print_table_line_only_before:
  assumes "has_key before_data key" and "\<not> has_key after_data key"
    and "avg_of before_data key = Inr before_avg"
  shows "print_table_line before_data after_data key a =
     (if both a then ([], None)
      else print_list_in_markdown_table
             [ascii ''`'' @ key @ ascii ''`'', before_avg, ascii ''-'', ascii ''-'', ascii ''-''])"
  using assms by (simp add: print_table_line_def Let_def)

lemma print_table_line_only_after:
  assumes "\<not> has_key before_data key" and "has_key after_data key"
    and "avg_of after_data key = Inr after_avg"
  shows "print_table_line before_data after_data key a =
     (if both a then ([], None)
      else print_list_in_markdown_table
             [ascii ''`'' @ key @ ascii ''`'', ascii ''-'', after_avg, ascii ''-'', ascii ''-''])"
  using assms by (simp add: print_table_line_def Let_def)

lemma dicts_union_sort:
  "dicts_union d1 d2 = sort (remdups (map fst d1 @ map fst d2))"
  by (simp add: dicts_union_def sorted_list_of_set_sort_remdups [symmetric])



lemma count_list_distinct: "distinct xs \<Longrightarrow> x \<in> set xs \<Longrightarrow> count_list xs x = 1"
  by (induction xs) (auto simp: count_list_0_iff)

lemma dicts_union_count:
  "has_key d1 key \<or> has_key d2 key \<Longrightarrow> count_list (dicts_union d1 d2) key = 1"
  by (rule count_list_distinct) (auto simp: dicts_union_def has_key_def)

lemma print_row_A_foo:
  "print_list_in_markdown_table
     ((ascii ''`'' @ ascii ''A.foo'' @ ascii ''`'') #
      [ascii ''100'', ascii ''150'', ascii ''+50'', ascii ''+50.00%''])
   = ([ascii ''| `A.foo` | 100 | 150 | +50 | +50.00% |''], None)"
  by (simp add: print_list_in_markdown_table_def ascii_def)

text \<open>
  Claim C1. Whenever both mappings hold the key \<open>A.foo\<close>, with avg \<open>100\<close> before and
  \<open>150\<close> after, and neither option is set, the row printed for the key is
  \<^verbatim>\<open>| `A.foo` | 100 | 150 | +50 | +50.00% |\<close> and nothing is raised; the key occurs once
  in the keys the section is printed for, so this is the only row for it.
\<close>

theorem row_A_foo_100_150:
  assumes "map_of before_data (ascii ''A.foo'') = Some before_record"
    and "map_of before_record ''avg'' = Some (ascii ''100'')"
    and "map_of after_data (ascii ''A.foo'') = Some after_record"
    and "map_of after_record ''avg'' = Some (ascii ''150'')"
  shows "print_table_line before_data after_data (ascii ''A.foo'')
           \<lparr>keep_zeros = False, both = False\<rparr>
         = ([ascii ''| `A.foo` | 100 | 150 | +50 | +50.00% |''], None)
       \<and> count_list (dicts_union before_data after_data) (ascii ''A.foo'') = 1"
proof -
  have k: "has_key before_data (ascii ''A.foo'')" "has_key after_data (ascii ''A.foo'')"
    using assms by (simp_all add: has_key_map_of)
  have b: "avg_of before_data (ascii ''A.foo'') = Inr (ascii ''100'')"
    using assms(1,2) by (rule avg_of_Inr)
  have a: "avg_of after_data (ascii ''A.foo'') = Inr (ascii ''150'')"
    using assms(3,4) by (rule avg_of_Inr)
  have ne: "ascii ''100'' \<noteq> ascii ''150''" by (simp add: ascii_def)
  have "print_table_line before_data after_data (ascii ''A.foo'')
           \<lparr>keep_zeros = False, both = False\<rparr>
         = ([ascii ''| `A.foo` | 100 | 150 | +50 | +50.00% |''], None)"
    by (simp add: print_table_line_both_sides [OF k b a] ne calculate_line_100_150
        print_row_A_foo)
  moreover have "count_list (dicts_union before_data after_data) (ascii ''A.foo'') = 1"
    using k by (simp add: dicts_union_count)
  ultimately show ?thesis by simp
qed

lemma method_record_avg: "map_of (method_record avg) ''avg'' = Some avg"
  by (simp add: method_record_def METHOD_COLUMNS_def)

lemma deployment_record_avg: "map_of (deployment_record avg) ''avg'' = Some avg"
  by (simp add: deployment_record_def DEPLOYMENT_COLUMNS_def)

lemma and_then_simps:
  "and_then (out, None) q = (out @ fst q, snd q)"
  "and_then (out, Some e) q = (out, Some e)"
  by (simp_all add: and_then_def)

lemma header_rows:
  "print_list_in_markdown_table MARKDOWN_TABLE_COLUMNS =
     ([ascii ''| Method call or Contract deployment | Before | After | After - Before | (After - Before) / Before |''], None)"
  "print_list_in_markdown_table MARKDOWN_TABLE_ALIGNMENTS =
     ([ascii ''| :- | :-: | :-: | :-: | :-: |''], None)"
  by (simp_all add: print_list_in_markdown_table_def MARKDOWN_TABLE_COLUMNS_def
      MARKDOWN_TABLE_ALIGNMENTS_def ascii_def)

theorem row_A_foo_100_150_witness:
  "map_of [(ascii ''A.foo'', method_record (ascii ''100''))] (ascii ''A.foo'')
     = Some (method_record (ascii ''100''))
   \<and> map_of (method_record (ascii ''100'')) ''avg'' = Some (ascii ''100'')
   \<and> map_of [(ascii ''A.foo'', method_record (ascii ''150''))] (ascii ''A.foo'')
     = Some (method_record (ascii ''150''))
   \<and> map_of (method_record (ascii ''150'')) ''avg'' = Some (ascii ''150'')
   \<and> format_markdown (report_A_foo (ascii ''100'')) (report_A_foo (ascii ''150''))
        \<lparr>keep_zeros = False, both = False\<rparr>
     = ([ascii ''| Method call or Contract deployment | Before | After | After - Before | (After - Before) / Before |'',
         ascii ''| :- | :-: | :-: | :-: | :-: |'',
         ascii ''| `A.foo` | 100 | 150 | +50 | +50.00% |''], None)"
proof -
  let ?b = "[(ascii ''A.foo'', method_record (ascii ''100''))]"
  let ?a = "[(ascii ''A.foo'', method_record (ascii ''150''))]"
  have h1: "map_of ?b (ascii ''A.foo'') = Some (method_record (ascii ''100''))" by simp
  have h2: "map_of (method_record (ascii ''100'')) ''avg'' = Some (ascii ''100'')"
    by (rule method_record_avg)
  have h3: "map_of ?a (ascii ''A.foo'') = Some (method_record (ascii ''150''))" by simp
  have h4: "map_of (method_record (ascii ''150'')) ''avg'' = Some (ascii ''150'')"
    by (rule method_record_avg)
  have row: "print_table_line ?b ?a (ascii ''A.foo'') \<lparr>keep_zeros = False, both = False\<rparr>
         = ([ascii ''| `A.foo` | 100 | 150 | +50 | +50.00% |''], None)"
    using row_A_foo_100_150 [OF h1 h2 h3 h4] by simp
  have keys: "dicts_union ?b ?a = [ascii ''A.foo'']"
    by (simp add: dicts_union_sort)
  have empty: "dicts_union ([] :: subdict) ([] :: subdict) = []"
    by (simp add: dicts_union_sort)
  have "format_markdown (report_A_foo (ascii ''100'')) (report_A_foo (ascii ''150''))
        \<lparr>keep_zeros = False, both = False\<rparr>
     = ([ascii ''| Method call or Contract deployment | Before | After | After - Before | (After - Before) / Before |'',
         ascii ''| :- | :-: | :-: | :-: | :-: |'',
         ascii ''| `A.foo` | 100 | 150 | +50 | +50.00% |''], None)"
    by (simp add: format_markdown_def print_subdict_in_markdown_table_def report_A_foo_def
        keys empty row header_rows and_then_simps)
  with h1 h2 h3 h4 show ?thesis by blast
qed

text \<open>
  Claim C6. For a key that only the before mapping holds, with avg \<open>v\<close>: without the
  \<open>both\<close> option the row printed has the key in backticks, \<open>v\<close> in the Before column
  and \<open>-\<close> in the After, difference and percentage columns; with the option nothing
  is printed. For a key that only the after mapping holds the same is true with \<open>v\<close>
  in the After column and \<open>-\<close> in the Before column.
\<close>

theorem row_for_one_sided_key:
  "(has_key before_data key \<and> \<not> has_key after_data key \<and> avg_of before_data key = Inr v \<longrightarrow>
      print_table_line before_data after_data key a =
        (if both a then ([], None)
         else ([ascii ''| `'' @ key @ ascii ''` | '' @ v @ ascii '' | - | - | - |''], None)))
   \<and> (\<not> has_key before_data key \<and> has_key after_data key \<and> avg_of after_data key = Inr v \<longrightarrow>
      print_table_line before_data after_data key a =
        (if both a then ([], None)
         else ([ascii ''| `'' @ key @ ascii ''` | - | '' @ v @ ascii '' | - | - |''], None)))
   \<and> (\<not> (has_key before_data key \<and> has_key after_data key) \<and> both a \<longrightarrow>
      print_table_line before_data after_data key a = ([], None))"
proof (intro conjI impI)
  assume "has_key before_data key \<and> \<not> has_key after_data key \<and> avg_of before_data key = Inr v"
  then have "print_table_line before_data after_data key a =
     (if both a then ([], None)
      else print_list_in_markdown_table
             [ascii ''`'' @ key @ ascii ''`'', v, ascii ''-'', ascii ''-'', ascii ''-''])"
    by (simp add: print_table_line_only_before)
  then show "print_table_line before_data after_data key a =
        (if both a then ([], None)
         else ([ascii ''| `'' @ key @ ascii ''` | '' @ v @ ascii '' | - | - | - |''], None))"
    by (simp add: print_list_in_markdown_table_def ascii_def)
next
  assume "\<not> has_key before_data key \<and> has_key after_data key \<and> avg_of after_data key = Inr v"
  then have "print_table_line before_data after_data key a =
     (if both a then ([], None)
      else print_list_in_markdown_table
             [ascii ''`'' @ key @ ascii ''`'', ascii ''-'', v, ascii ''-'', ascii ''-''])"
    by (simp add: print_table_line_only_after)
  then show "print_table_line before_data after_data key a =
        (if both a then ([], None)
         else ([ascii ''| `'' @ key @ ascii ''` | - | '' @ v @ ascii '' | - | - |''], None))"
    by (simp add: print_list_in_markdown_table_def ascii_def)
next
  assume "\<not> (has_key before_data key \<and> has_key after_data key) \<and> both a"
  then show "print_table_line before_data after_data key a = ([], None)"
    by (auto simp: print_table_line_def Let_def)
qed

theorem row_for_one_sided_key_witness:
  "has_key [(ascii ''A.foo'', method_record (ascii ''100''))] (ascii ''A.foo'')
   \<and> \<not> has_key ([] :: subdict) (ascii ''A.foo'')
   \<and> avg_of [(ascii ''A.foo'', method_record (ascii ''100''))] (ascii ''A.foo'') = Inr (ascii ''100'')
   \<and> print_table_line [(ascii ''A.foo'', method_record (ascii ''100''))] [] (ascii ''A.foo'')
        \<lparr>keep_zeros = False, both = False\<rparr>
      = ([ascii ''| `A.foo` | 100 | - | - | - |''], None)
   \<and> print_table_line [] [(ascii ''A.foo'', method_record (ascii ''100''))] (ascii ''A.foo'')
        \<lparr>keep_zeros = False, both = False\<rparr>
      = ([ascii ''| `A.foo` | - | 100 | - | - |''], None)
   \<and> print_table_line [(ascii ''A.foo'', method_record (ascii ''100''))] [] (ascii ''A.foo'')
        \<lparr>keep_zeros = False, both = True\<rparr>
      = ([], None)
   \<and> print_table_line [] [(ascii ''A.foo'', method_record (ascii ''100''))] (ascii ''A.foo'')
        \<lparr>keep_zeros = False, both = True\<rparr>
      = ([], None)"
proof -
  let ?d = "[(ascii ''A.foo'', method_record (ascii ''100''))]"
  let ?k = "ascii ''A.foo''"
  have h1: "has_key ?d ?k" by (simp add: has_key_def)
  have h2: "\<not> has_key ([] :: subdict) ?k" by (simp add: has_key_def)
  have h3: "avg_of ?d ?k = Inr (ascii ''100'')"
    by (rule avg_of_Inr [OF _ method_record_avg]) simp
  have s1: "ascii ''| `'' @ ?k @ ascii ''` | '' @ ascii ''100'' @ ascii '' | - | - | - |''
      = ascii ''| `A.foo` | 100 | - | - | - |''"
    by (simp add: ascii_def)
  have s2: "ascii ''| `'' @ ?k @ ascii ''` | - | '' @ ascii ''100'' @ ascii '' | - | - |''
      = ascii ''| `A.foo` | - | 100 | - | - |''"
    by (simp add: ascii_def)
  show ?thesis
    using row_for_one_sided_key [of ?d ?k "[]" "ascii ''100''" "\<lparr>keep_zeros = False, both = False\<rparr>"]
      row_for_one_sided_key [of "[]" ?k ?d "ascii ''100''" "\<lparr>keep_zeros = False, both = False\<rparr>"]
      row_for_one_sided_key [of ?d ?k "[]" "ascii ''100''" "\<lparr>keep_zeros = False, both = True\<rparr>"]
      row_for_one_sided_key [of "[]" ?k ?d "ascii ''100''" "\<lparr>keep_zeros = False, both = True\<rparr>"]
      h1 h2 h3
    by (simp add: s1 s2)
qed



lemma calculate_line_ValueError_before:
  "py_int before_avg = None \<Longrightarrow> calculate_line before_avg after_avg = Inl ValueError"
  by (simp add: calculate_line_def)


























end
